theory Spec2Isabelle
  imports Main "HOL-Library.Multiset"
begin

section \<open>JavaScript strings and values\<close>

text \<open>
  A JavaScript string is modelled as a \<open>string\<close>: one \<open>char\<close> per code unit, so
  \<open>length\<close> is the source's \<open>.length\<close> on texts whose code units fit in eight bits
  (the characters of Latin-1).
  A value that may be \<open>null\<close> or \<open>undefined\<close> is an \<open>option\<close>.
\<close>

text \<open>Truthiness of a possibly absent string: present and not empty.\<close>

definition truthy :: "string option \<Rightarrow> bool" where
  "truthy v = (case v of None \<Rightarrow> False | Some s \<Rightarrow> s \<noteq> [])"

text \<open>
  A possibly absent string as a condition sees it: \<open>None\<close> when it is falsy. This is also
  \<open>a || undefined\<close>.
\<close>

definition orUndefined :: "string option \<Rightarrow> string option" where
  "orUndefined v = (if truthy v then v else None)"

text \<open>
  \<open>String.prototype.toLowerCase\<close> on these characters: the letters \<open>A\<close> to \<open>Z\<close> and
  the Latin-1 capitals U+00C0 to U+00DE, the multiplication sign U+00D7 apart, move up by 32.
\<close>

definition lowerChar :: "char \<Rightarrow> char" where
  "lowerChar c =
     (let n = (of_char c :: nat)
      in if (65 \<le> n \<and> n \<le> 90) \<or> (192 \<le> n \<and> n \<le> 222 \<and> n \<noteq> 215)
         then char_of (n + 32) else c)"

definition toLowerCase :: "string \<Rightarrow> string" where
  "toLowerCase s = map lowerChar s"

text \<open>
  The white space \<open>String.prototype.trim\<close> removes, as far as it fits in eight bits:
  tab, line feed, vertical tab, form feed, carriage return, space, no-break space.
\<close>

definition isWhiteSpace :: "char \<Rightarrow> bool" where
  "isWhiteSpace c = ((of_char c :: nat) \<in> {9, 10, 11, 12, 13, 32, 160})"

definition trim :: "string \<Rightarrow> string" where
  "trim s = rev (dropWhile isWhiteSpace (rev (dropWhile isWhiteSpace s)))"

text \<open>\<open>s.slice(0, n)\<close> for \<open>0 \<le> n\<close>, on strings and arrays.\<close>

definition slice0 :: "nat \<Rightarrow> 'a list \<Rightarrow> 'a list" where
  "slice0 n xs = take n xs"

text \<open>\<open>Array.prototype.join\<close>.\<close>

fun join :: "string \<Rightarrow> string list \<Rightarrow> string" where
  "join sep [] = []"
| "join sep [x] = x"
| "join sep (x # y # ys) = x @ sep @ join sep (y # ys)"

text \<open>The decimal text of a non-negative integer, as a template literal prints it.\<close>

definition digitChar :: "nat \<Rightarrow> char" where
  "digitChar d = char_of (48 + d)"

fun numberToString :: "nat \<Rightarrow> string" where
  "numberToString n =
     (if n < 10 then [digitChar n] else numberToString (n div 10) @ [digitChar (n mod 10)])"

declare numberToString.simps [simp del]

text \<open>
  \<open>s.split(sep)\<close> for a non-empty separator: \<open>splitAcc\<close> carries the piece being
  read, in reverse.
\<close>

fun splitAcc :: "string \<Rightarrow> string \<Rightarrow> string \<Rightarrow> string list" where
  "splitAcc sep acc [] = [rev acc]"
| "splitAcc sep acc (c # cs) =
     (if sep \<noteq> [] \<and> take (length sep) (c # cs) = sep
      then rev acc # splitAcc sep [] (drop (length sep) (c # cs))
      else splitAcc sep (c # acc) cs)"

definition splitString :: "string \<Rightarrow> string \<Rightarrow> string list" where
  "splitString sep s = splitAcc sep [] s"

section \<open>The DOM as the selector code reads it\<close>

text \<open>
  \<open>className\<close> of an HTML element is a string; of an SVG element it is an
  \<open>SVGAnimatedString\<close> object, which the code tells apart with \<open>typeof\<close>.
\<close>

datatype ClassName = ClassString string | ClassAnimated

text \<open>
  What the code reads of one element. \<open>elemId\<close> is \<open>element.id\<close> (empty when the
  element has none), \<open>dataTestid\<close> is \<open>getAttribute('data-testid')\<close>, \<open>datasetNp\<close>
  is \<open>dataset.np\<close>, \<open>isBody\<close> says that the element is \<open>document.body\<close>, and
  \<open>childIndex\<close> is the element's 0-based position among the children of its parent
  element (read only when it has one).
\<close>

record Element =
  tagName :: string
  elemId :: string
  className :: ClassName
  classList :: "string list"
  dataTestid :: "string option"
  datasetNp :: "string option"
  textContent :: "string option"
  isBody :: bool
  childIndex :: nat

text \<open>
  An element is given together with its chain of ancestors, the parent first:
  \<open>parentElement\<close> of the element is the head of the chain (or \<open>null\<close> when the chain
  is empty), and so on up to the root.
\<close>

text \<open>
  \<open>Array.from(current.parentElement?.children || []).indexOf(current)\<close>: \<open>-1\<close> without
  a parent element.
\<close>

definition siblingIndex :: "Element \<Rightarrow> Element list \<Rightarrow> int" where
  "siblingIndex current ancestors =
     (if ancestors = [] then - 1 else int (childIndex current))"

text \<open>The selector of one level of the walk (lines 510 to 529), for an element without id.\<close>

definition levelSelector :: "Element \<Rightarrow> Element list \<Rightarrow> string" where
  "levelSelector current ancestors =
     (let selector = toLowerCase (tagName current);
          selector =
            (case className current of
               ClassString cn \<Rightarrow>
                 (if cn \<noteq> [] \<and> length (classList current) > 0
                  then selector @ ''.'' @ join ''.'' (slice0 2 (classList current))
                  else selector)
             | ClassAnimated \<Rightarrow> selector);
          index = siblingIndex current ancestors
      in if index \<ge> 0
         then selector @ '':nth-child('' @ numberToString (nat (index + 1)) @ '')''
         else selector)"

text \<open>
  The loop of \<open>generateUniqueSelector\<close>: the first argument is \<open>current\<close> with its
  ancestors (empty when \<open>current\<close> is \<open>null\<close>), the second is \<open>path\<close>.
\<close>

fun selectorWalk :: "Element list \<Rightarrow> string list \<Rightarrow> string list" where
  "selectorWalk [] path = path"
| "selectorWalk (current # ancestors) path =
     (if isBody current then path
      else if elemId current \<noteq> [] then (''#'' @ elemId current) # path
      else
        (let path' = levelSelector current ancestors # path
         in if length path' > 10 then path' else selectorWalk ancestors path'))"

definition quoteChar :: char where
  "quoteChar = CHR 0x22"

definition generateUniqueSelector :: "Element \<Rightarrow> Element list \<Rightarrow> string" where
  "generateUniqueSelector element ancestors =
     (if elemId element \<noteq> [] then ''#'' @ elemId element
      else
        (case orUndefined (dataTestid element) of
           Some testId \<Rightarrow> ''[data-testid='' @ [quoteChar] @ testId @ [quoteChar] @ '']''
         | None \<Rightarrow>
             (case orUndefined (datasetNp element) of
                Some npData \<Rightarrow> ''[data-np='' @ [quoteChar] @ npData @ [quoteChar] @ '']''
              | None \<Rightarrow> join '' > '' (selectorWalk (element # ancestors) []))))"

text \<open>\<open>getDomPath\<close>, with its loop.\<close>

fun domPathWalk :: "Element list \<Rightarrow> string list \<Rightarrow> string list" where
  "domPathWalk [] path = path"
| "domPathWalk (current # ancestors) path =
     (if isBody current then path
      else
        (let part = toLowerCase (tagName current);
             part = (if elemId current \<noteq> [] then part @ ''#'' @ elemId current else part);
             path' = part # path
         in if length path' > 8 then path' else domPathWalk ancestors path'))"

definition getDomPath :: "Element \<Rightarrow> Element list \<Rightarrow> string list" where
  "getDomPath element ancestors = domPathWalk (element # ancestors) []"

text \<open>\<open>extractTextContent\<close>: \<open>undefined\<close> is \<open>None\<close>.\<close>

definition extractTextContent :: "Element \<Rightarrow> string option" where
  "extractTextContent element =
     (case map_option trim (textContent element) of
        None \<Rightarrow> None
      | Some text \<Rightarrow>
          if text = [] then None
          else if length text > 50 then Some (slice0 47 text @ ''...'')
          else Some text)"

text \<open>
  \<open>getElementInfo\<close>, the fields read from the element itself. The bounding rectangle,
  the React component name, the \<open>data-np\<close> search and the ARIA attributes are left out:
  they read state outside of this model and no field below depends on them.
\<close>

record ElementInfo =
  infoTagName :: string
  infoId :: "string option"
  infoClassList :: "string list"
  infoUniqueSelector :: string
  domPath :: "string list"
  infoTextContent :: "string option"
  infoDataTestId :: "string option"

definition getElementInfo :: "Element \<Rightarrow> Element list \<Rightarrow> ElementInfo" where
  "getElementInfo element ancestors =
     \<lparr> infoTagName = toLowerCase (tagName element),
       infoId = orUndefined (Some (elemId element)),
       infoClassList = classList element,
       infoUniqueSelector = generateUniqueSelector element ancestors,
       domPath = getDomPath element ancestors,
       infoTextContent = extractTextContent element,
       infoDataTestId = orUndefined (dataTestid element) \<rparr>"

section \<open>Annotations\<close>

datatype AnnotationStatus = Pending | InProgress | Resolved | Dismissed

text \<open>The element snapshot of an annotation (\<open>AnnotationDialogProps['elementInfo']\<close>).\<close>

record DialogElementInfo =
  dlgTagName :: string
  dlgId :: "string option"
  uniqueSelector :: string
  componentName :: "string option"
  dlgTextContent :: "string option"

text \<open>\<open>DebugAnnotation\<close>; \<open>annoId\<close> is its field \<open>id\<close>. A timestamp is a whole number of milliseconds.\<close>

record DebugAnnotation =
  annoId :: string
  selector :: string
  elementInfo :: DialogElementInfo
  comment :: string
  aiPrompt :: "string option"
  timestamp :: int
  status :: AnnotationStatus

definition newline :: string where
  "newline = [CHR 0x0A]"

text \<open>\<open>a || 'text'\<close> on a possibly absent string.\<close>

definition orElse :: "string option \<Rightarrow> string \<Rightarrow> string" where
  "orElse v d = (case orUndefined v of None \<Rightarrow> d | Some s \<Rightarrow> s)"

definition generateAIPrompt :: "DialogElementInfo \<Rightarrow> string \<Rightarrow> string" where
  "generateAIPrompt info cmt = concat
     [''// #NP-DEBUG - Session-only fix request'', newline,
      ''// Element: '', uniqueSelector info, newline,
      ''// React Component: '', orElse (componentName info) ''Unknown'', newline,
      ''// Text Content: '', orElse (dlgTextContent info) ''N/A'', newline,
      newline,
      ''// User Request:'', newline,
      ''// '', cmt, newline,
      newline,
      ''// Generated AI Task:'', newline,
      ''// Fix the behavior of the component at '', [quoteChar], uniqueSelector info,
        [quoteChar], ''.'', newline,
      ''// Current issue: '', cmt, newline,
      ''// Expected behavior: [To be implemented]'', newline,
      newline,
      ''/* #NP-DEBUG-START'', newline,
      ''This is a session-only annotation. Changes should be tested in current session'',
        newline,
      ''before committing to main codebase.'', newline,
      ''#NP-DEBUG-END */'']"

text \<open>
  \<open>generateId\<close>: \<open>now\<close> is what \<open>Date.now()\<close> returns and \<open>suffix\<close> is the text
  \<open>Math.random().toString(36).slice(2, 9)\<close>.
\<close>

definition intToString :: "int \<Rightarrow> string" where
  "intToString i = (if i < 0 then ''-'' @ numberToString (nat (- i)) else numberToString (nat i))"

definition generateId :: "int \<Rightarrow> string \<Rightarrow> string" where
  "generateId now suffix = ''anno-'' @ intToString now @ ''-'' @ suffix"

text \<open>
  \<open>handleSave\<close> of the dialog: the annotation handed to \<open>onSave\<close>, or \<open>None\<close> when it
  returns without saving. \<open>idNow\<close> and \<open>suffix\<close> are the clock and the random text read
  by \<open>generateId\<close>, \<open>now\<close> is the clock read for the timestamp.
\<close>

definition handleSave ::
  "DialogElementInfo \<Rightarrow> string \<Rightarrow> int \<Rightarrow> string \<Rightarrow> int \<Rightarrow> DebugAnnotation option" where
  "handleSave info cmt idNow suffix now =
     (if trim cmt = [] then None
      else Some
        \<lparr> annoId = generateId idNow suffix,
          selector = uniqueSelector info,
          elementInfo = info,
          comment = cmt,
          aiPrompt = Some (if cmt \<noteq> [] then generateAIPrompt info cmt else []),
          timestamp = now,
          status = Pending \<rparr>)"

text \<open>
  \<open>handleClick\<close> of the annotation system: the element snapshot the dialog is opened with,
  or \<open>None\<close> when the click is ignored. \<open>inAnnotationUi\<close> says that
  \<open>target.closest('[data-debug-annotation]')\<close> finds an element.
\<close>

definition classNameTruthy :: "ClassName \<Rightarrow> bool" where
  "classNameTruthy cn = (case cn of ClassString s \<Rightarrow> s \<noteq> [] | ClassAnimated \<Rightarrow> True)"

definition handleClick :: "bool \<Rightarrow> bool \<Rightarrow> Element \<Rightarrow> DialogElementInfo option" where
  "handleClick enabled inAnnotationUi target =
     (if \<not> enabled then None
      else if inAnnotationUi then None
      else Some
        \<lparr> dlgTagName = toLowerCase (tagName target),
          dlgId = orUndefined (Some (elemId target)),
          uniqueSelector =
            (if elemId target \<noteq> [] then ''#'' @ elemId target
             else toLowerCase (tagName target) @
               (if classNameTruthy (className target)
                then ''.'' @ join ''.'' (slice0 2 (classList target))
                else [])),
          componentName = None,
          dlgTextContent =
            orUndefined (map_option (slice0 50) (map_option trim (textContent target))) \<rparr>)"

section \<open>The annotation store\<close>

text \<open>
  An object used as a dictionary (\<open>Record<string, V>\<close>) is an association list in the
  order in which \<open>Object.values\<close> lists it: keys are added at the end and keep their place
  when they are written again. (Keys that are array indices would be listed first; the ids
  of \<open>generateId\<close> are not, and no property below depends on the order.)
\<close>

type_synonym 'v Record = "(string \<times> 'v) list"

definition objectValues :: "'v Record \<Rightarrow> 'v list" where
  "objectValues obj = map snd obj"

definition objectKeys :: "'v Record \<Rightarrow> string list" where
  "objectKeys obj = map fst obj"

text \<open>\<open>obj[key]\<close>, \<open>undefined\<close> as \<open>None\<close>.\<close>

fun getProp :: "'v Record \<Rightarrow> string \<Rightarrow> 'v option" where
  "getProp [] key = None"
| "getProp ((k, v) # obj) key = (if k = key then Some v else getProp obj key)"

text \<open>\<open>{ ...obj, [key]: value }\<close>.\<close>

fun setProp :: "'v Record \<Rightarrow> string \<Rightarrow> 'v \<Rightarrow> 'v Record" where
  "setProp [] key value = [(key, value)]"
| "setProp ((k, v) # obj) key value =
     (if k = key then (k, value) # obj else (k, v) # setProp obj key value)"

text \<open>\<open>const next = { ...obj }; delete next[key]\<close>.\<close>

fun deleteProp :: "'v Record \<Rightarrow> string \<Rightarrow> 'v Record" where
  "deleteProp [] key = []"
| "deleteProp ((k, v) # obj) key =
     (if k = key then deleteProp obj key else (k, v) # deleteProp obj key)"

text \<open>
  \<open>handleSaveAnnotation\<close>: the next mapping, and the count handed to
  \<open>onAnnotationCountChange\<close>.
\<close>

definition handleSaveAnnotation ::
  "DebugAnnotation Record \<Rightarrow> DebugAnnotation \<Rightarrow> DebugAnnotation Record \<times> nat" where
  "handleSaveAnnotation prev annotation =
     (let next = setProp prev (annoId annotation) annotation
      in (next, length (objectKeys next)))"

section \<open>The dashboard\<close>




text \<open>\<open>deleteAnnotation\<close>: the mapping handed to \<open>onUpdateAnnotations\<close>.\<close>

definition deleteAnnotation :: "'v Record \<Rightarrow> string \<Rightarrow> 'v Record" where
  "deleteAnnotation annotations key = deleteProp annotations key"

text \<open>
  \<open>Array.prototype.sort\<close> with a comparator. The sort is stable, and a stable sort has one
  result for a comparator that is a total preorder, so it is written as insertion from
  the right.
\<close>

fun insertBy :: "('a \<Rightarrow> 'a \<Rightarrow> int) \<Rightarrow> 'a \<Rightarrow> 'a list \<Rightarrow> 'a list" where
  "insertBy cmp x [] = [x]"
| "insertBy cmp x (y # ys) = (if cmp x y \<le> 0 then x # y # ys else y # insertBy cmp x ys)"

definition sortBy :: "('a \<Rightarrow> 'a \<Rightarrow> int) \<Rightarrow> 'a list \<Rightarrow> 'a list" where
  "sortBy cmp xs = foldr (insertBy cmp) xs []"

datatype FilterOption = FilterAll | FilterStatus AnnotationStatus

text \<open>
  \<open>annotationList\<close>, on a mapping of the declared type \<open>Record<string, DebugAnnotation>\<close>:
  every value has a timestamp, so the comparator is a number.
\<close>

definition annotationList :: "DebugAnnotation Record \<Rightarrow> FilterOption \<Rightarrow> DebugAnnotation list" where
  "annotationList annotations flt =
     (let list = sortBy (\<lambda>a b. timestamp b - timestamp a) (objectValues annotations)
      in case flt of
           FilterAll \<Rightarrow> list
         | FilterStatus st \<Rightarrow> filter (\<lambda>a. status a = st) list)"

section \<open>Notions the properties are stated with\<close>

text \<open>\<open>s.endsWith(suffix)\<close>.\<close>

definition endsWith :: "string \<Rightarrow> string \<Rightarrow> bool" where
  "endsWith s suffix =
     (length suffix \<le> length s \<and> drop (length s - length suffix) s = suffix)"

text \<open>The qualifier \<open>:nth-child(i)\<close>.\<close>

definition nthChild :: "nat \<Rightarrow> string" where
  "nthChild i = '':nth-child('' @ numberToString i @ '')''"

text \<open>Descending creation time: the earlier entry of a list is not older than the later.\<close>

definition newestFirst :: "DebugAnnotation \<Rightarrow> DebugAnnotation \<Rightarrow> bool" where
  "newestFirst a b = (timestamp a \<ge> timestamp b)"

section \<open>A concrete document and concrete annotations\<close>

definition htmlElement :: Element where
  "htmlElement =
     \<lparr> tagName = ''HTML'', elemId = [], className = ClassString [], classList = [],
       dataTestid = None, datasetNp = None, textContent = Some [], isBody = False,
       childIndex = 0 \<rparr>"

definition bodyElement :: Element where
  "bodyElement =
     \<lparr> tagName = ''BODY'', elemId = [], className = ClassString [], classList = [],
       dataTestid = None, datasetNp = None, textContent = Some [], isBody = True,
       childIndex = 1 \<rparr>"

definition plainDiv :: Element where
  "plainDiv =
     \<lparr> tagName = ''DIV'', elemId = [], className = ClassString [], classList = [],
       dataTestid = None, datasetNp = None, textContent = Some [], isBody = False,
       childIndex = 0 \<rparr>"

definition rootDiv :: Element where
  "rootDiv = plainDiv\<lparr>elemId := ''root''\<rparr>"

definition cardDiv :: Element where
  "cardDiv =
     \<lparr> tagName = ''DIV'', elemId = [], className = ClassString ''card wide dark'',
       classList = [''card'', ''wide'', ''dark''],
       dataTestid = None, datasetNp = None, textContent = Some ''  Total: 3  '', isBody = False,
       childIndex = 2 \<rparr>"

definition submitButton :: Element where
  "submitButton =
     \<lparr> tagName = ''BUTTON'', elemId = ''submit-btn'', className = ClassString ''btn primary'',
       classList = [''btn'', ''primary''], dataTestid = Some ''submit'', datasetNp = Some ''note'',
       textContent = Some ''  Send  '', isBody = False, childIndex = 2 \<rparr>"

definition blankSpan :: Element where
  "blankSpan = plainDiv\<lparr>tagName := ''SPAN'', textContent := Some ''   ''\<rparr>"

definition longParagraph :: Element where
  "longParagraph = plainDiv\<lparr>tagName := ''P'', textContent := Some (replicate 60 CHR ''x'')\<rparr>"

definition cardInfo :: DialogElementInfo where
  "cardInfo =
     \<lparr> dlgTagName = ''div'', dlgId = None, uniqueSelector = ''div.card.wide'',
       componentName = None, dlgTextContent = Some ''Total: 3'' \<rparr>"

definition cardNote :: DebugAnnotation where
  "cardNote =
     \<lparr> annoId = ''anno-100-aaaaaaa'', selector = ''div.card.wide'', elementInfo = cardInfo,
       comment = ''too wide'', aiPrompt = Some (generateAIPrompt cardInfo ''too wide''),
       timestamp = 101, status = Pending \<rparr>"

definition noteOld :: DebugAnnotation where
  "noteOld =
     \<lparr> annoId = ''anno-10-bbbbbbb'', selector = ''#submit-btn'', elementInfo = cardInfo,
       comment = ''button should be disabled'', aiPrompt = Some [], timestamp = 10,
       status = Resolved \<rparr>"

definition noteMid :: DebugAnnotation where
  "noteMid = noteOld\<lparr>annoId := ''anno-20-ccccccc'', timestamp := 20, status := Pending\<rparr>"

definition noteNew :: DebugAnnotation where
  "noteNew = noteOld\<lparr>annoId := ''anno-30-ddddddd'', timestamp := 30, status := Pending\<rparr>"

definition threeNotes :: "DebugAnnotation Record" where
  "threeNotes = [(annoId noteMid, noteMid), (annoId noteOld, noteOld), (annoId noteNew, noteNew)]"


section \<open>Lemmas on strings, objects and sorting\<close>

lemma trim_Nil: "trim [] = []"
  by (simp add: trim_def)

lemma endsWith_append: "endsWith (s @ suffix) suffix"
  by (simp add: endsWith_def)

lemma getProp_setProp_same: "getProp (setProp obj key v) key = Some v"
  by (induction obj) auto




lemma deleteProp_twice: "deleteProp (deleteProp obj key) key = deleteProp obj key"
  by (induction obj) auto

lemma deleteProp_absent: "getProp obj key = None \<Longrightarrow> deleteProp obj key = obj"
  by (induction obj) (auto split: if_splits)

lemma mset_insertBy: "mset (insertBy cmp x xs) = add_mset x (mset xs)"
  by (induction xs) auto

lemma mset_sortBy: "mset (sortBy cmp xs) = mset xs"
  by (induction xs) (auto simp: sortBy_def mset_insertBy)

lemma set_insertBy: "set (insertBy cmp x xs) = insert x (set xs)"
  by (induction xs) auto

lemma newestFirst_insertBy:
  "sorted_wrt newestFirst xs \<Longrightarrow>
   sorted_wrt newestFirst (insertBy (\<lambda>a b. timestamp b - timestamp a) x xs)"
  by (induction xs) (auto simp: set_insertBy newestFirst_def)

lemma newestFirst_sortBy:
  "sorted_wrt newestFirst (sortBy (\<lambda>a b. timestamp b - timestamp a) xs)"
  by (induction xs) (auto simp: sortBy_def newestFirst_insertBy)

lemma status_partition:
  "mset (filter (\<lambda>a. status a = Pending) xs) + mset (filter (\<lambda>a. status a = InProgress) xs) +
   mset (filter (\<lambda>a. status a = Resolved) xs) + mset (filter (\<lambda>a. status a = Dismissed) xs)
   = mset xs"
proof (induction xs)
  case Nil
  show ?case by simp
next
  case (Cons a xs)
  then show ?case by (cases "status a") simp_all
qed

section \<open>Lemmas on the two ancestor walks\<close>

text \<open>With a parent element, the selector of a level ends with the qualifier of its position.\<close>

lemma levelSelector_nthChild:
  assumes "ancestors \<noteq> []"
  shows "endsWith (levelSelector current ancestors) (nthChild (childIndex current + 1))"
proof -
  have n: "nat (int (childIndex current) + 1) = childIndex current + 1"
    by simp
  obtain sel where "levelSelector current ancestors
      = sel @ '':nth-child('' @ numberToString (nat (int (childIndex current) + 1)) @ '')''"
    using assms by (simp add: levelSelector_def siblingIndex_def Let_def)
  then have "levelSelector current ancestors = sel @ nthChild (childIndex current + 1)"
    unfolding nthChild_def n by simp
  then show ?thesis
    by (simp add: endsWith_append)
qed

text \<open>
  What the walk puts in front of \<open>path\<close>: one level for each element of a prefix of the
  chain, the element's own level last. A level with an id is the first one.
\<close>

lemma selectorWalk_levels:
  "\<exists>ys. selectorWalk xs acc = ys @ acc \<and> length ys \<le> length xs \<and>
        (xs \<noteq> [] \<and> \<not> isBody (hd xs) \<longrightarrow> ys \<noteq> []) \<and>
        (\<forall>k<length ys.
           (elemId (xs ! k) \<noteq> [] \<longrightarrow> rev ys ! k = ''#'' @ elemId (xs ! k) \<and> Suc k = length ys) \<and>
           (elemId (xs ! k) = [] \<longrightarrow> rev ys ! k = levelSelector (xs ! k) (drop (Suc k) xs)))"
proof (induction xs arbitrary: acc)
  case Nil
  show ?case by simp
next
  case (Cons c rest)
  show ?case
  proof (cases "isBody c")
    case True
    then show ?thesis by simp
  next
    case notBody: False
    show ?thesis
    proof (cases "elemId c = []")
      case False
      with notBody have "selectorWalk (c # rest) acc = [''#'' @ elemId c] @ acc"
        by simp
      with False show ?thesis
        by (intro exI [of _ "[''#'' @ elemId c]"]) simp
    next
      case noId: True
      define lvl where "lvl = levelSelector c rest"
      show ?thesis
      proof (cases "length (lvl # acc) > 10")
        case True
        with notBody noId have "selectorWalk (c # rest) acc = [lvl] @ acc"
          by (simp add: lvl_def Let_def)
        with noId show ?thesis
          by (intro exI [of _ "[lvl]"]) (simp add: lvl_def)
      next
        case False
        with notBody noId have step: "selectorWalk (c # rest) acc = selectorWalk rest (lvl # acc)"
          by (simp add: lvl_def Let_def)
        from Cons.IH [of "lvl # acc"] obtain ys where
          ys: "selectorWalk rest (lvl # acc) = ys @ lvl # acc" "length ys \<le> length rest"
          and lv: "\<forall>k<length ys.
           (elemId (rest ! k) \<noteq> [] \<longrightarrow> rev ys ! k = ''#'' @ elemId (rest ! k) \<and> Suc k = length ys) \<and>
           (elemId (rest ! k) = [] \<longrightarrow> rev ys ! k = levelSelector (rest ! k) (drop (Suc k) rest))"
          by blast
        have "\<forall>k<length (ys @ [lvl]).
           (elemId ((c # rest) ! k) \<noteq> [] \<longrightarrow>
              rev (ys @ [lvl]) ! k = ''#'' @ elemId ((c # rest) ! k) \<and> Suc k = length (ys @ [lvl])) \<and>
           (elemId ((c # rest) ! k) = [] \<longrightarrow>
              rev (ys @ [lvl]) ! k = levelSelector ((c # rest) ! k) (drop (Suc k) (c # rest)))"
        proof (intro allI impI)
          fix k assume k: "k < length (ys @ [lvl])"
          show "(elemId ((c # rest) ! k) \<noteq> [] \<longrightarrow>
              rev (ys @ [lvl]) ! k = ''#'' @ elemId ((c # rest) ! k) \<and> Suc k = length (ys @ [lvl])) \<and>
           (elemId ((c # rest) ! k) = [] \<longrightarrow>
              rev (ys @ [lvl]) ! k = levelSelector ((c # rest) ! k) (drop (Suc k) (c # rest)))"
          proof (cases k)
            case 0
            with noId show ?thesis by (simp add: lvl_def)
          next
            case (Suc j)
            with k have j: "j < length ys" by simp
            note inst = lv [rule_format, OF j]
            from j have r: "rev (ys @ [lvl]) ! k = rev ys ! j"
              by (simp add: Suc)
            have e: "(c # rest) ! k = rest ! j" "drop (Suc k) (c # rest) = drop (Suc j) rest"
              "Suc k = length (ys @ [lvl]) \<longleftrightarrow> Suc j = length ys"
              by (simp_all add: Suc)
            from inst show ?thesis
              unfolding r e by blast
          qed
        qed
        with step ys show ?thesis
          by (intro exI [of _ "ys @ [lvl]"]) simp
      qed
    qed
  qed
qed

text \<open>The bounds the two walks do keep: eleven levels and nine entries.\<close>

lemma selectorWalk_bound:
  "length acc \<le> 10 \<Longrightarrow> length (selectorWalk xs acc) \<le> 11"
proof (induction xs arbitrary: acc)
  case Nil
  then show ?case by simp
next
  case (Cons c rest)
  show ?case
  proof (cases "isBody c \<or> elemId c \<noteq> [] \<or> length (levelSelector c rest # acc) > 10")
    case True
    with Cons.prems show ?thesis
      by (auto simp: Let_def)
  next
    case False
    then have "length (levelSelector c rest # acc) \<le> 10"
      by simp
    from Cons.IH [OF this] False show ?thesis
      by (simp add: Let_def)
  qed
qed

lemma domPathWalk_bound:
  "length acc \<le> 8 \<Longrightarrow> length (domPathWalk xs acc) \<le> 9"
proof (induction xs arbitrary: acc)
  case Nil
  then show ?case by simp
next
  case (Cons c rest)
  define part where
    "part = (if elemId c \<noteq> [] then toLowerCase (tagName c) @ ''#'' @ elemId c
             else toLowerCase (tagName c))"
  have step: "domPathWalk (c # rest) acc =
     (if isBody c then acc
      else if length (part # acc) > 8 then part # acc else domPathWalk rest (part # acc))"
    by (simp add: Let_def part_def)
  show ?case
  proof (cases "isBody c \<or> length (part # acc) > 8")
    case True
    with Cons.prems show ?thesis
      unfolding step by auto
  next
    case False
    then have "length (part # acc) \<le> 8"
      by simp
    from Cons.IH [OF this] False show ?thesis
      unfolding step by simp
  qed
qed

lemma getDomPath_bound: "length (getDomPath element ancestors) \<le> 9"
  unfolding getDomPath_def by (rule domPathWalk_bound) simp

section \<open>The claims\<close>

subsection \<open>The selector generator\<close>

text \<open>
  C2. An element with a non-empty id gets the selector \<open>#\<close> followed by that id, whatever
  its ancestors, classes, test id and \<open>data-np\<close> attribute are.
\<close>

theorem generateUniqueSelector_id:
  "elemId element \<noteq> [] \<Longrightarrow> generateUniqueSelector element ancestors = ''#'' @ elemId element"
  by (simp add: generateUniqueSelector_def)

theorem generateUniqueSelector_id_witness:
  "elemId submitButton \<noteq> [] \<and>
   generateUniqueSelector submitButton [rootDiv, bodyElement, htmlElement] = ''#submit-btn''"
  using generateUniqueSelector_id [of submitButton "[rootDiv, bodyElement, htmlElement]"]
  by (simp add: submitButton_def)

text \<open>
  C3, as the code has it. For an element other than \<open>document.body\<close> with no id, no
  truthy test id and no truthy \<open>data-np\<close> attribute, the selector is the levels of the walk
  joined with \<open>" > "\<close>, and there is at least one level. Counting from the element
  (\<open>k = 0\<close>) upwards, the level of a node without id that has a parent element ends with
  \<open>:nth-child(i)\<close>, \<open>i\<close> being the node's 1-based position among its parent's children;
  the level of an ancestor with an id is \<open>#id\<close>, without a qualifier, and it is the
  outermost level. Classes play no part.
\<close>

theorem selector_levels_qualified:
  assumes "elemId element = []" and "\<not> truthy (dataTestid element)"
    and "\<not> truthy (datasetNp element)" and "\<not> isBody element"
  shows "generateUniqueSelector element ancestors
           = join '' > '' (selectorWalk (element # ancestors) []) \<and>
         selectorWalk (element # ancestors) [] \<noteq> [] \<and>
         (\<forall>k<length (selectorWalk (element # ancestors) []).
            (elemId ((element # ancestors) ! k) \<noteq> [] \<longrightarrow>
               rev (selectorWalk (element # ancestors) []) ! k
                 = ''#'' @ elemId ((element # ancestors) ! k) \<and>
               Suc k = length (selectorWalk (element # ancestors) [])) \<and>
            (elemId ((element # ancestors) ! k) = [] \<and> Suc k < length (element # ancestors) \<longrightarrow>
               endsWith (rev (selectorWalk (element # ancestors) []) ! k)
                 (nthChild (childIndex ((element # ancestors) ! k) + 1))))"
proof -
  define xs where "xs = element # ancestors"
  define L where "L = selectorWalk xs []"
  from selectorWalk_levels [of xs "[]"] obtain ys where
    raw: "L = ys @ []"
    and ne: "xs \<noteq> [] \<and> \<not> isBody (hd xs) \<longrightarrow> ys \<noteq> []"
    and lv: "\<forall>k<length ys.
           (elemId (xs ! k) \<noteq> [] \<longrightarrow> rev ys ! k = ''#'' @ elemId (xs ! k) \<and> Suc k = length ys) \<and>
           (elemId (xs ! k) = [] \<longrightarrow> rev ys ! k = levelSelector (xs ! k) (drop (Suc k) xs))"
    unfolding L_def by blast
  from raw have ys: "ys = L"
    by simp
  have sel: "generateUniqueSelector element ancestors = join '' > '' L"
    using assms(1-3)
    by (simp add: generateUniqueSelector_def orUndefined_def L_def xs_def del: selectorWalk.simps)
  have nonempty: "L \<noteq> []"
    using ne assms(4) by (simp add: xs_def ys)
  have levels: "\<forall>k<length L.
            (elemId (xs ! k) \<noteq> [] \<longrightarrow>
               rev L ! k = ''#'' @ elemId (xs ! k) \<and> Suc k = length L) \<and>
            (elemId (xs ! k) = [] \<and> Suc k < length xs \<longrightarrow>
               endsWith (rev L ! k) (nthChild (childIndex (xs ! k) + 1)))"
  proof (intro allI impI)
    fix k assume k: "k < length L"
    note inst = lv [unfolded ys, rule_format, OF k]
    have "endsWith (rev L ! k) (nthChild (childIndex (xs ! k) + 1))"
      if h: "elemId (xs ! k) = [] \<and> Suc k < length xs"
    proof -
      from h have "drop (Suc k) xs \<noteq> []"
        by simp
      then have "endsWith (levelSelector (xs ! k) (drop (Suc k) xs))
                   (nthChild (childIndex (xs ! k) + 1))"
        by (rule levelSelector_nthChild)
      with inst h show ?thesis
        by simp
    qed
    with inst show "(elemId (xs ! k) \<noteq> [] \<longrightarrow>
               rev L ! k = ''#'' @ elemId (xs ! k) \<and> Suc k = length L) \<and>
            (elemId (xs ! k) = [] \<and> Suc k < length xs \<longrightarrow>
               endsWith (rev L ! k) (nthChild (childIndex (xs ! k) + 1)))"
      by blast
  qed
  from sel nonempty levels show ?thesis
    unfolding L_def xs_def by blast
qed

theorem selector_levels_qualified_witness:
  "elemId cardDiv = [] \<and> \<not> truthy (dataTestid cardDiv) \<and> \<not> truthy (datasetNp cardDiv) \<and>
   \<not> isBody cardDiv \<and>
   generateUniqueSelector cardDiv [plainDiv, rootDiv, bodyElement, htmlElement]
     = ''#root > div:nth-child(1) > div.card.wide:nth-child(3)'' \<and>
   selectorWalk [cardDiv, plainDiv, rootDiv, bodyElement, htmlElement] []
     = [''#root'', ''div:nth-child(1)'', ''div.card.wide:nth-child(3)''] \<and>
   endsWith ''div.card.wide:nth-child(3)'' (nthChild 3) \<and>
   endsWith ''div:nth-child(1)'' (nthChild 1)"
proof -
  have h1: "elemId cardDiv = []" by (simp add: cardDiv_def)
  have h2: "\<not> truthy (dataTestid cardDiv)" by (simp add: cardDiv_def truthy_def)
  have h3: "\<not> truthy (datasetNp cardDiv)" by (simp add: cardDiv_def truthy_def)
  have h4: "\<not> isBody cardDiv" by (simp add: cardDiv_def)
  have w: "selectorWalk [cardDiv, plainDiv, rootDiv, bodyElement, htmlElement] []
     = [''#root'', ''div:nth-child(1)'', ''div.card.wide:nth-child(3)'']"
    by code_simp
  have s: "join '' > '' [''#root'', ''div:nth-child(1)'', ''div.card.wide:nth-child(3)'']
     = ''#root > div:nth-child(1) > div.card.wide:nth-child(3)''"
    by simp
  have c: "childIndex cardDiv + 1 = 3" "childIndex plainDiv + 1 = 1" "elemId plainDiv = []"
    by (simp_all add: cardDiv_def plainDiv_def)
  note T = selector_levels_qualified [OF h1 h2 h3 h4, of "[plainDiv, rootDiv, bodyElement, htmlElement]",
      unfolded w s]
  from T have g: "generateUniqueSelector cardDiv [plainDiv, rootDiv, bodyElement, htmlElement]
     = ''#root > div:nth-child(1) > div.card.wide:nth-child(3)''"
    by blast
  from T have e0: "endsWith ''div.card.wide:nth-child(3)'' (nthChild 3)"
    using h1 c(1) by (auto dest!: spec [of _ 0])
  from T have e1: "endsWith ''div:nth-child(1)'' (nthChild 1)"
    using c(2,3) by (auto dest!: spec [of _ 1])
  from h1 h2 h3 h4 g w e0 e1 show ?thesis by blast
qed

text \<open>
  C3, as the claim states it, fails: a \<open>div\<close> without id, classes and attributes whose
  parent is \<open><div id="root">\<close> gets a selector whose first level is \<open>#root\<close>, which
  carries no \<open>:nth-child\<close> qualifier.
\<close>

theorem selector_root_level_counterexample:
  "elemId plainDiv = [] \<and> dataTestid plainDiv = None \<and> datasetNp plainDiv = None \<and>
   classList plainDiv = [] \<and>
   generateUniqueSelector plainDiv [rootDiv, bodyElement, htmlElement] = ''#root > div:nth-child(1)'' \<and>
   splitString '' > '' ''#root > div:nth-child(1)'' = [''#root'', ''div:nth-child(1)''] \<and>
   \<not> endsWith ''#root'' (nthChild (childIndex rootDiv + 1))"
proof -
  have a: "elemId plainDiv = [] \<and> dataTestid plainDiv = None \<and> datasetNp plainDiv = None \<and>
      classList plainDiv = []"
    by (simp add: plainDiv_def)
  have b: "generateUniqueSelector plainDiv [rootDiv, bodyElement, htmlElement]
      = ''#root > div:nth-child(1)''"
    by code_simp
  have c: "splitString '' > '' ''#root > div:nth-child(1)'' = [''#root'', ''div:nth-child(1)'']"
    by code_simp
  have d: "\<not> endsWith ''#root'' (nthChild (childIndex rootDiv + 1))"
    by code_simp
  from a b c d show ?thesis by blast
qed

text \<open>
  C4. The claim bounds the selector by 10 levels. The walk tests \<open>path.length > 10\<close> after
  it has added a level, so it stops with 11: a \<open>div\<close> eleven levels below the body, no
  ids on the way, gets a selector of 11 levels. (\<open>selectorWalk_bound\<close> is the bound the
  walk keeps.)
\<close>

theorem selector_eleven_levels:
  "elemId plainDiv = [] \<and> dataTestid plainDiv = None \<and> datasetNp plainDiv = None \<and>
   length (selectorWalk (plainDiv # replicate 10 plainDiv @ [bodyElement, htmlElement]) []) = 11 \<and>
   length (splitString '' > ''
     (generateUniqueSelector plainDiv (replicate 10 plainDiv @ [bodyElement, htmlElement]))) = 11"
proof -
  have a: "elemId plainDiv = [] \<and> dataTestid plainDiv = None \<and> datasetNp plainDiv = None"
    by (simp add: plainDiv_def)
  have b: "length (selectorWalk (plainDiv # replicate 10 plainDiv @ [bodyElement, htmlElement]) []) = 11"
    by code_simp
  have c: "length (splitString '' > ''
     (generateUniqueSelector plainDiv (replicate 10 plainDiv @ [bodyElement, htmlElement]))) = 11"
    by code_simp
  from a b c show ?thesis by blast
qed

subsection \<open>The element descriptor\<close>

text \<open>
  C5. The claim bounds \<open>domPath\<close> by 8 entries. \<open>getDomPath\<close> tests
  \<open>path.length > 8\<close> after it has added an entry, so it stops with 9: for a \<open>div\<close> nine
  levels below the body the descriptor's \<open>domPath\<close> has 9 entries. (\<open>getDomPath_bound\<close>
  is the bound the walk keeps.)
\<close>

theorem domPath_nine_entries:
  "length (domPath (getElementInfo plainDiv (replicate 8 plainDiv @ [bodyElement, htmlElement]))) = 9"
  by code_simp

text \<open>
  C9, as the code has it. A trimmed text of 1 to 50 characters is the descriptor's text
  content, unchanged; a longer one is cut to its first 47 characters followed by
  \<open>...\<close>; an empty one, and a \<open>textContent\<close> of \<open>null\<close>, gives no text content at
  all (\<open>undefined\<close>). A text content that is returned has at most 50 characters.
\<close>

theorem extractTextContent_bounded:
  "(textContent element = Some raw \<and> trim raw \<noteq> [] \<and> length (trim raw) \<le> 50 \<longrightarrow>
      extractTextContent element = Some (trim raw)) \<and>
   (textContent element = Some raw \<and> length (trim raw) > 50 \<longrightarrow>
      extractTextContent element = Some (take 47 (trim raw) @ ''...'')) \<and>
   (textContent element = None \<or> textContent element = Some raw \<and> trim raw = [] \<longrightarrow>
      extractTextContent element = None) \<and>
   (extractTextContent element = Some r \<longrightarrow> length r \<le> 50)"
  by (auto simp: extractTextContent_def slice0_def split: option.splits if_splits)

theorem extractTextContent_bounded_witness:
  "textContent cardDiv = Some ''  Total: 3  '' \<and> trim ''  Total: 3  '' = ''Total: 3'' \<and>
   extractTextContent cardDiv = Some ''Total: 3'' \<and>
   textContent longParagraph = Some (replicate 60 CHR ''x'') \<and>
   length (trim (replicate 60 CHR ''x'')) > 50 \<and>
   extractTextContent longParagraph = Some (replicate 47 CHR ''x'' @ ''...'') \<and>
   length (replicate 47 CHR ''x'' @ ''...'') \<le> 50 \<and>
   textContent blankSpan = Some ''   '' \<and> trim ''   '' = [] \<and>
   extractTextContent blankSpan = None"
proof -
  have t1: "trim ''  Total: 3  '' = ''Total: 3''"
    by (simp add: trim_def isWhiteSpace_def)
  have t2: "trim (replicate 60 CHR ''x'') = replicate 60 CHR ''x''"
    by (simp add: trim_def isWhiteSpace_def)
  have t3: "trim ''   '' = []"
    by (simp add: trim_def isWhiteSpace_def)
  have r1: "textContent cardDiv = Some ''  Total: 3  ''"
    by (simp add: cardDiv_def)
  have r2: "textContent longParagraph = Some (replicate 60 CHR ''x'')"
    by (simp add: longParagraph_def plainDiv_def)
  have r3: "textContent blankSpan = Some ''   ''"
    by (simp add: blankSpan_def plainDiv_def)
  have a: "extractTextContent cardDiv = Some ''Total: 3''"
    using extractTextContent_bounded [of cardDiv "''  Total: 3  ''"] r1 t1 by simp
  have b: "extractTextContent longParagraph = Some (replicate 47 CHR ''x'' @ ''...'')"
    using extractTextContent_bounded [of longParagraph "replicate 60 CHR ''x''"] r2 t2 by simp
  have c: "extractTextContent blankSpan = None"
    using extractTextContent_bounded [of blankSpan "''   ''"] r3 t3 by simp
  have d: "length (replicate 47 CHR ''x'' @ ''...'') \<le> 50"
    using extractTextContent_bounded [of longParagraph _ "replicate 47 CHR ''x'' @ ''...''"] b
    by blast
  from t1 t2 t3 r1 r2 r3 a b c d show ?thesis by simp
qed

text \<open>
  C9, as the claim states it, fails on an element whose text is white space only: its
  trimmed text is the empty string, of length at most 50, and the descriptor's text content
  is not that string but \<open>undefined\<close>.
\<close>

theorem extractTextContent_blank_counterexample:
  "textContent blankSpan = Some ''   '' \<and> length (trim ''   '') \<le> 50 \<and>
   extractTextContent blankSpan \<noteq> Some (trim ''   '') \<and>
   extractTextContent blankSpan = None"
  by (simp add: blankSpan_def plainDiv_def extractTextContent_def trim_def isWhiteSpace_def)

subsection \<open>The annotation store\<close>

text \<open>
  C6. An annotation that the save dialog produces is found under its id in the mapping
  after \<open>handleSaveAnnotation\<close>, equal in every field to what was saved: the generated
  id, the snapshot's selector, the snapshot, the comment, the generated prompt and the
  timestamp; its status is pending.
\<close>

theorem save_read_back:
  assumes "handleSave info cmt idNow suffix now = Some a"
  shows "getProp (fst (handleSaveAnnotation prev a)) (annoId a) = Some a \<and>
         status a = Pending \<and>
         annoId a = generateId idNow suffix \<and>
         selector a = uniqueSelector info \<and>
         elementInfo a = info \<and>
         comment a = cmt \<and>
         aiPrompt a = Some (generateAIPrompt info cmt) \<and>
         timestamp a = now"
proof -
  from assms have ne: "trim cmt \<noteq> []"
    by (auto simp: handleSave_def split: if_splits)
  then have "cmt \<noteq> []"
    using trim_Nil by auto
  with assms ne show ?thesis
    by (auto simp: handleSave_def handleSaveAnnotation_def getProp_setProp_same Let_def)
qed

theorem save_read_back_witness:
  "handleSave cardInfo ''too wide'' 100 ''aaaaaaa'' 101 = Some cardNote \<and>
   getProp (fst (handleSaveAnnotation threeNotes cardNote)) (annoId cardNote) = Some cardNote \<and>
   status cardNote = Pending"
proof -
  have t: "trim ''too wide'' = ''too wide''"
    by (simp add: trim_def isWhiteSpace_def)
  have i: "generateId 100 ''aaaaaaa'' = ''anno-100-aaaaaaa''"
    by code_simp
  have h: "handleSave cardInfo ''too wide'' 100 ''aaaaaaa'' 101 = Some cardNote"
    by (simp add: handleSave_def t i cardNote_def cardInfo_def)
  from save_read_back [OF h, of threeNotes] h show ?thesis
    by blast
qed

text \<open>
  C10. The selector of a saved annotation is the one \<open>handleClick\<close> computes:
  \<open>#id\<close> for an element with an id, otherwise the tag name and, when \<open>className\<close> is
  truthy, a dot and the first two class names joined with dots; the position among the
  siblings, the test id and \<open>data-np\<close> are not read. For some element without id it
  differs from what \<open>generateUniqueSelector\<close> returns.
\<close>

theorem annotation_selector_rule:
  "(handleClick True False target = Some info \<and> handleSave info cmt idNow suffix now = Some a \<longrightarrow>
      selector a =
        (if elemId target \<noteq> [] then ''#'' @ elemId target
         else toLowerCase (tagName target) @
           (if classNameTruthy (className target)
            then ''.'' @ join ''.'' (take 2 (classList target)) else []))) \<and>
   (\<exists>element ancestors info' a'.
      elemId element = [] \<and>
      handleClick True False element = Some info' \<and>
      handleSave info' ''too wide'' 100 ''aaaaaaa'' 101 = Some a' \<and>
      selector a' \<noteq> generateUniqueSelector element ancestors)"
proof (intro conjI impI)
  assume "handleClick True False target = Some info \<and> handleSave info cmt idNow suffix now = Some a"
  then show "selector a =
        (if elemId target \<noteq> [] then ''#'' @ elemId target
         else toLowerCase (tagName target) @
           (if classNameTruthy (className target)
            then ''.'' @ join ''.'' (take 2 (classList target)) else []))"
    by (auto simp: handleClick_def handleSave_def slice0_def split: if_splits)
next
  have a: "handleClick True False cardDiv = Some cardInfo"
    by code_simp
  have t: "trim ''too wide'' = ''too wide''"
    by (simp add: trim_def isWhiteSpace_def)
  have i: "generateId 100 ''aaaaaaa'' = ''anno-100-aaaaaaa''"
    by code_simp
  have b: "handleSave cardInfo ''too wide'' 100 ''aaaaaaa'' 101 = Some cardNote"
    by (simp add: handleSave_def t i cardNote_def cardInfo_def)
  have c: "generateUniqueSelector cardDiv [bodyElement, htmlElement] = ''div.card.wide:nth-child(3)''"
    by code_simp
  have d: "selector cardNote = ''div.card.wide''" "elemId cardDiv = []"
    by (simp_all add: cardNote_def cardDiv_def)
  have "elemId cardDiv = [] \<and>
      handleClick True False cardDiv = Some cardInfo \<and>
      handleSave cardInfo ''too wide'' 100 ''aaaaaaa'' 101 = Some cardNote \<and>
      selector cardNote \<noteq> generateUniqueSelector cardDiv [bodyElement, htmlElement]"
    using a b c d by simp
  then show "\<exists>element ancestors info' a'.
      elemId element = [] \<and>
      handleClick True False element = Some info' \<and>
      handleSave info' ''too wide'' 100 ''aaaaaaa'' 101 = Some a' \<and>
      selector a' \<noteq> generateUniqueSelector element ancestors"
    by blast
qed

theorem annotation_selector_rule_witness:
  "handleClick True False cardDiv = Some cardInfo \<and>
   handleSave cardInfo ''too wide'' 100 ''aaaaaaa'' 101 = Some cardNote \<and>
   selector cardNote = ''div.card.wide'' \<and>
   generateUniqueSelector cardDiv [bodyElement, htmlElement] = ''div.card.wide:nth-child(3)''"
proof -
  have a: "handleClick True False cardDiv = Some cardInfo"
    by code_simp
  have t: "trim ''too wide'' = ''too wide''"
    by (simp add: trim_def isWhiteSpace_def)
  have i: "generateId 100 ''aaaaaaa'' = ''anno-100-aaaaaaa''"
    by code_simp
  have b: "handleSave cardInfo ''too wide'' 100 ''aaaaaaa'' 101 = Some cardNote"
    by (simp add: handleSave_def t i cardNote_def cardInfo_def)
  have c: "generateUniqueSelector cardDiv [bodyElement, htmlElement] = ''div.card.wide:nth-child(3)''"
    by code_simp
  have l: "toLowerCase (tagName cardDiv) = ''div''"
    by code_simp
  have k: "elemId cardDiv = []" "classNameTruthy (className cardDiv)"
    "take 2 (classList cardDiv) = [''card'', ''wide'']"
    by (simp_all add: cardDiv_def classNameTruthy_def)
  from annotation_selector_rule [of cardDiv cardInfo "''too wide''" 100 "''aaaaaaa''" 101 cardNote]
    a b have "selector cardNote = ''div.card.wide''"
    unfolding l by (simp add: k)
  with a b c show ?thesis by blast
qed

subsection \<open>The dashboard\<close>




text \<open>
  C7. Deleting an id twice gives the mapping that deleting it once gives, and deleting
  an id that is absent leaves the mapping unchanged.
\<close>

theorem deleteAnnotation_idempotent:
  "deleteAnnotation (deleteAnnotation annotations key) key = deleteAnnotation annotations key \<and>
   (getProp annotations key = None \<longrightarrow> deleteAnnotation annotations key = annotations)"
  by (simp add: deleteAnnotation_def deleteProp_twice deleteProp_absent)

theorem deleteAnnotation_idempotent_witness:
  "deleteAnnotation threeNotes ''anno-20-ccccccc''
     = [(''anno-10-bbbbbbb'', noteOld), (''anno-30-ddddddd'', noteNew)] \<and>
   deleteAnnotation (deleteAnnotation threeNotes ''anno-20-ccccccc'') ''anno-20-ccccccc''
     = deleteAnnotation threeNotes ''anno-20-ccccccc'' \<and>
   getProp threeNotes ''anno-99-zzzzzzz'' = None \<and>
   deleteAnnotation threeNotes ''anno-99-zzzzzzz'' = threeNotes"
proof -
  have a: "deleteAnnotation threeNotes ''anno-20-ccccccc''
     = [(''anno-10-bbbbbbb'', noteOld), (''anno-30-ddddddd'', noteNew)]"
    by (simp add: deleteAnnotation_def threeNotes_def noteOld_def noteMid_def noteNew_def)
  have b: "getProp threeNotes ''anno-99-zzzzzzz'' = None"
    by (simp add: threeNotes_def noteOld_def noteMid_def noteNew_def)
  from a b deleteAnnotation_idempotent [of threeNotes "''anno-20-ccccccc''"]
    deleteAnnotation_idempotent [of threeNotes "''anno-99-zzzzzzz''"]
  show ?thesis by blast
qed

text \<open>
  C8. Every entry of a list filtered by a status has that status; the four lists
  filtered by status hold together, as a multiset, the entries of the unfiltered list; and
  every list, filtered or not, is in descending order of the timestamps.
\<close>

theorem annotationList_filter_invariant:
  "(\<forall>a \<in> set (annotationList annotations (FilterStatus f)). status a = f) \<and>
   mset (annotationList annotations (FilterStatus Pending)) +
   mset (annotationList annotations (FilterStatus InProgress)) +
   mset (annotationList annotations (FilterStatus Resolved)) +
   mset (annotationList annotations (FilterStatus Dismissed))
     = mset (annotationList annotations FilterAll) \<and>
   sorted_wrt newestFirst (annotationList annotations flt)"
proof (intro conjI)
  show "\<forall>a \<in> set (annotationList annotations (FilterStatus f)). status a = f"
    by (simp add: annotationList_def)
  show "mset (annotationList annotations (FilterStatus Pending)) +
   mset (annotationList annotations (FilterStatus InProgress)) +
   mset (annotationList annotations (FilterStatus Resolved)) +
   mset (annotationList annotations (FilterStatus Dismissed))
     = mset (annotationList annotations FilterAll)"
    using status_partition by (simp add: annotationList_def)
  show "sorted_wrt newestFirst (annotationList annotations flt)"
    by (cases flt) (simp_all add: annotationList_def newestFirst_sortBy sorted_wrt_filter)
qed

theorem annotationList_filter_invariant_witness:
  "annotationList threeNotes (FilterStatus Pending) = [noteNew, noteMid] \<and>
   annotationList threeNotes (FilterStatus Resolved) = [noteOld] \<and>
   annotationList threeNotes FilterAll = [noteNew, noteMid, noteOld] \<and>
   status noteNew = Pending \<and> status noteMid = Pending \<and>
   sorted_wrt newestFirst [noteNew, noteMid, noteOld]"
proof -
  have a: "annotationList threeNotes (FilterStatus Pending) = [noteNew, noteMid]"
    by (simp add: annotationList_def threeNotes_def objectValues_def sortBy_def noteOld_def
        noteMid_def noteNew_def)
  have b: "annotationList threeNotes (FilterStatus Resolved) = [noteOld]"
    by (simp add: annotationList_def threeNotes_def objectValues_def sortBy_def noteOld_def
        noteMid_def noteNew_def)
  have c: "annotationList threeNotes FilterAll = [noteNew, noteMid, noteOld]"
    by (simp add: annotationList_def threeNotes_def objectValues_def sortBy_def noteOld_def
        noteMid_def noteNew_def)
  from annotationList_filter_invariant [of threeNotes Pending FilterAll] a b c
  show ?thesis by simp
qed

end
